theory Spec2Isabelle
  imports Complex_Main "HOL-Library.Log_Nat"
begin

section \<open>Data model\<close>

text \<open>
  The two tables of \<^verbatim>\<open>create_tables\<close>.  A row of \<^verbatim>\<open>users\<close> is
  \<^verbatim>\<open>(id, username, password)\<close>; a row of \<^verbatim>\<open>habits\<close> is
  \<^verbatim>\<open>(id, user_id, name, date, status, notes)\<close>.  The column \<^verbatim>\<open>notes\<close> is
  nullable (\<open>None\<close> is SQL NULL).  The \<^verbatim>\<open>date\<close> column holds text in the database
  and a pandas datetime value once \<^verbatim>\<open>load_user_habits\<close> has converted it, so
  the row type is polymorphic in that column.  The primary keys are called
  \<open>user_pk\<close> and \<open>habit_pk\<close> because \<open>id\<close> is the identity function of HOL,
  and the notes column \<open>notes_col\<close> because \<open>notes\<close> is a keyword.
\<close>

record user_row =
  user_pk :: int
  username :: string
  password :: string

record 'd habit_row =
  habit_pk :: int
  user_id :: int
  name :: string
  date :: 'd
  status :: string
  notes_col :: "string option"

record db =
  users :: "user_row list"
  habits :: "string habit_row list"

text \<open>
  A value of a pandas \<^verbatim>\<open>datetime64[ns]\<close> column: the missing value \<^verbatim>\<open>NaT\<close>
  or a \<^verbatim>\<open>Timestamp\<close>, a count of nanoseconds since the epoch (no time zone,
  as \<^verbatim>\<open>datetime.datetime.now()\<close> has none).  The count is an unbounded
  integer here; pandas keeps it in 64 bits and raises outside the years
  1677 to 2262.
\<close>

datatype date_val = NaT | Timestamp int

definition ns_per_day :: int where
  "ns_per_day = 86400000000000"

text \<open>
  \<^verbatim>\<open>(date - prev_date).days\<close>: the difference of two timestamps is a
  \<^verbatim>\<open>Timedelta\<close>, whose \<^verbatim>\<open>days\<close> is the number of whole 24-hour periods
  in it, rounded down.  With \<^verbatim>\<open>NaT\<close> on either side the difference is
  \<^verbatim>\<open>NaT\<close> and its \<^verbatim>\<open>days\<close> is \<^verbatim>\<open>nan\<close>, which is \<open>None\<close> here.
\<close>

fun delta_days :: "date_val \<Rightarrow> date_val \<Rightarrow> int option" where
  "delta_days (Timestamp d) (Timestamp p) = Some ((d - p) div ns_per_day)"
| "delta_days _ _ = None"

text \<open>
  \<^verbatim>\<open>.dt.date\<close>: the calendar day of a timestamp, as a day number since the
  epoch; \<^verbatim>\<open>NaT\<close> has none.
\<close>

fun dt_date :: "date_val \<Rightarrow> int option" where
  "dt_date (Timestamp t) = Some (t div ns_per_day)"
| "dt_date NaT = None"

section \<open>Authentication\<close>

text \<open>
  \<^verbatim>\<open>AUTOINCREMENT\<close>: the new key is one more than the largest key used so
  far.  The program never deletes a row, so that is the largest key present.
\<close>

definition next_rowid :: "int list \<Rightarrow> int" where
  "next_rowid ids = fold max ids 0 + 1"

datatype sqlite_error = IntegrityError

text \<open>
  \<^verbatim>\<open>INSERT INTO users (username, password) VALUES (?, ?)\<close> under the
  \<^verbatim>\<open>UNIQUE\<close> constraint on \<^verbatim>\<open>username\<close>.
\<close>

definition insert_user :: "db \<Rightarrow> string \<Rightarrow> string \<Rightarrow> sqlite_error + db" where
  "insert_user d uname pw =
     (if uname \<in> set (map username (users d)) then Inl IntegrityError
      else Inr (d\<lparr>users := users d @
        [\<lparr>user_pk = next_rowid (map user_pk (users d)), username = uname, password = pw\<rparr>]\<rparr>))"

text \<open>
  \<^verbatim>\<open>register_user\<close> returns \<^verbatim>\<open>True\<close> after the commit, and \<^verbatim>\<open>False\<close>
  when the insert raised \<^verbatim>\<open>sqlite3.IntegrityError\<close>; the result is paired
  with the database afterwards.
\<close>

definition register_user :: "db \<Rightarrow> string \<Rightarrow> string \<Rightarrow> bool \<times> db" where
  "register_user d uname pw =
     (case insert_user d uname pw of
        Inr d' \<Rightarrow> (True, d')
      | Inl IntegrityError \<Rightarrow> (False, d))"

text \<open>
  \<^verbatim>\<open>SELECT * FROM users WHERE username=? AND password=?\<close> and
  \<^verbatim>\<open>fetchone()\<close>: the first matching row, or \<^verbatim>\<open>None\<close>.
\<close>

definition login_user :: "db \<Rightarrow> string \<Rightarrow> string \<Rightarrow> user_row option" where
  "login_user d uname pw =
     find (\<lambda>r. username r = uname \<and> password r = pw) (users d)"

section \<open>Habit management\<close>

definition set_date :: "'e \<Rightarrow> 'd habit_row \<Rightarrow> 'e habit_row" where
  "set_date v r =
     \<lparr>habit_pk = habit_pk r, user_id = user_id r, name = name r, date = v,
      status = status r, notes_col = notes_col r\<rparr>"

text \<open>
  \<^verbatim>\<open>load_user_habits\<close>: the rows of the user, in stored order, with
  \<^verbatim>\<open>habits["date"] = pd.to_datetime(habits["date"], errors="coerce")\<close>.
  The conversion belongs to pandas and is a parameter: it takes the column of
  stored texts and returns the column of datetime values, with \<^verbatim>\<open>NaT\<close>
  where a text cannot be parsed (pandas may judge a text by the format of
  the first one, so the conversion is of the column, not of each text by
  itself).  The assignment aligns the new column with the rows; a row for
  which the column has no value gets the missing value.
\<close>

fun assign_date :: "'d habit_row list \<Rightarrow> date_val list \<Rightarrow> date_val habit_row list" where
  "assign_date [] vs = []"
| "assign_date (r # rs) [] = set_date NaT r # assign_date rs []"
| "assign_date (r # rs) (v # vs) = set_date v r # assign_date rs vs"

definition load_user_habits ::
  "(string list \<Rightarrow> date_val list) \<Rightarrow> db \<Rightarrow> int \<Rightarrow> date_val habit_row list" where
  "load_user_habits to_datetime d uid =
     (let habits_df = filter (\<lambda>r. user_id r = uid) (habits d)
      in assign_date habits_df (to_datetime (map date habits_df)))"

text \<open>The columns of a row other than \<^verbatim>\<open>date\<close>.\<close>

definition other_columns :: "'d habit_row \<Rightarrow> int \<times> int \<times> string \<times> string \<times> string option" where
  "other_columns r = (habit_pk r, user_id r, name r, status r, notes_col r)"

text \<open>
  \<^verbatim>\<open>add_habit\<close> and \<^verbatim>\<open>log_habit_progress\<close>: one insert each.  \<open>now\<close> is
  the text that sqlite3 stores for \<^verbatim>\<open>datetime.datetime.now()\<close>.
  \<^verbatim>\<open>log_habit_progress\<close> names no \<^verbatim>\<open>notes\<close> column, which is then NULL.
\<close>

definition add_habit :: "string \<Rightarrow> db \<Rightarrow> int \<Rightarrow> string \<Rightarrow> string \<Rightarrow> db" where
  "add_habit now d uid habit_name nts =
     d\<lparr>habits := habits d @
       [\<lparr>habit_pk = next_rowid (map habit_pk (habits d)), user_id = uid,
         name = habit_name, date = now, status = ''Started'', notes_col = Some nts\<rparr>]\<rparr>"

definition log_habit_progress :: "string \<Rightarrow> db \<Rightarrow> int \<Rightarrow> string \<Rightarrow> string \<Rightarrow> db" where
  "log_habit_progress now d uid habit_name st =
     d\<lparr>habits := habits d @
       [\<lparr>habit_pk = next_rowid (map habit_pk (habits d)), user_id = uid,
         name = habit_name, date = now, status = st, notes_col = None\<rparr>]\<rparr>"

section \<open>Streaks\<close>

text \<open>\<^verbatim>\<open>Series.unique()\<close>: the distinct values in order of first appearance.\<close>

fun unique :: "'a list \<Rightarrow> 'a list" where
  "unique [] = []"
| "unique (x # xs) = x # unique (filter (\<lambda>y. y \<noteq> x) xs)"

text \<open>
  \<^verbatim>\<open>Series.sort_values()\<close> on a datetime column: ascending, with the
  \<^verbatim>\<open>NaT\<close> values last.
\<close>

definition sort_values :: "date_val list \<Rightarrow> date_val list" where
  "sort_values ds =
     map Timestamp (sort (concat (map (\<lambda>d. case d of Timestamp t \<Rightarrow> [t] | NaT \<Rightarrow> []) ds)))
     @ filter (\<lambda>d. d = NaT) ds"

text \<open>
  The loop over the sorted dates of one habit.  The state is
  \<^verbatim>\<open>(max_streak, current_streak, prev_date)\<close>, and \<open>None\<close> is Python's
  \<^verbatim>\<open>None\<close>.  The test \<^verbatim>\<open>prev_date and (date - prev_date).days == 1\<close> fails
  for \<^verbatim>\<open>None\<close>; a \<^verbatim>\<open>Timestamp\<close> is always true as a condition; with
  \<^verbatim>\<open>NaT\<close> on either side \<^verbatim>\<open>days\<close> is \<^verbatim>\<open>nan\<close>, which is not 1.
\<close>

record streak_state =
  max_streak :: int
  current_streak :: int
  prev_date :: "date_val option"

definition streak_step :: "streak_state \<Rightarrow> date_val \<Rightarrow> streak_state" where
  "streak_step s d =
     (let cur = (if (case prev_date s of None \<Rightarrow> False
                     | Some p \<Rightarrow> delta_days d p = Some 1)
                 then current_streak s + 1 else 1)
      in \<lparr>max_streak = max (max_streak s) cur, current_streak = cur, prev_date = Some d\<rparr>)"

definition streak_loop :: "date_val list \<Rightarrow> streak_state" where
  "streak_loop dates =
     fold (\<lambda>d s. streak_step s d) dates
       \<lparr>max_streak = 0, current_streak = 0, prev_date = None\<rparr>"

definition calculate_streaks :: "date_val habit_row list \<Rightarrow> (string \<rightharpoonup> int)" where
  "calculate_streaks habit_data =
     fold (\<lambda>habit streaks.
             streaks(habit \<mapsto>
               max_streak (streak_loop (sort_values
                 (map date (filter (\<lambda>r. name r = habit) habit_data))))))
       (unique (map name habit_data)) Map.empty"

section \<open>Filtering and success rate\<close>

text \<open>
  The selection of the "Visualize Habits" page: the rows of the selected
  habit whose \<^verbatim>\<open>.dt.date\<close> is at least \<^verbatim>\<open>start_date\<close> and at most
  \<^verbatim>\<open>end_date\<close> (day numbers).  A comparison with a missing date is false.
\<close>

definition filtered_data ::
  "date_val habit_row list \<Rightarrow> string \<Rightarrow> int \<Rightarrow> int \<Rightarrow> date_val habit_row list" where
  "filtered_data habits_data selected_habit start_date end_date =
     filter (\<lambda>r. name r = selected_habit \<and>
                 (case dt_date (date r) of None \<Rightarrow> False | Some day \<Rightarrow> day \<ge> start_date) \<and>
                 (case dt_date (date r) of None \<Rightarrow> False | Some day \<Rightarrow> day \<le> end_date))
       habits_data"

text \<open>
  Python's \<^verbatim>\<open>float\<close> is an IEEE double.  The value of a double is a
  rational number, and an arithmetic operation returns the exact result
  rounded to the nearest double, ties to the even significand.
  \<open>exponent x\<close> is the power of two at or below \<open>\<bar>x\<bar>\<close>, found from the
  bit lengths of numerator and denominator; a double has 53 significant
  bits, so the doubles around \<open>x\<close> are the multiples of
  \<open>2 powi (exponent x - 52)\<close>.  The exponent is not bounded here: overflow
  and subnormal numbers are out of reach of a quotient of two list lengths
  and of 100 times it.
\<close>

definition exponent :: "rat \<Rightarrow> int" where
  "exponent x =
     (let (n, d) = quotient_of \<bar>x\<bar>; k = bitlen n - bitlen d
      in if 2 powi k \<le> \<bar>x\<bar> then k else k - 1)"

definition round_half_even :: "rat \<Rightarrow> int" where
  "round_half_even y =
     (let f = \<lfloor>y\<rfloor>; r = y - of_int f
      in if r < 1 / 2 then f else if 1 / 2 < r then f + 1
         else if even f then f else f + 1)"

definition round_double :: "rat \<Rightarrow> rat" where
  "round_double x =
     (if x = 0 then 0
      else of_int (round_half_even (x / 2 powi (exponent x - 52))) * 2 powi (exponent x - 52))"

text \<open>
  \<^verbatim>\<open>(completed_logs / total_logs) * 100 if total_logs else 0\<close>.  Python's
  \<^verbatim>\<open>/\<close> on two integers raises \<^verbatim>\<open>ZeroDivisionError\<close> on a zero
  divisor, which is a result of the model, and returns the correctly
  rounded quotient otherwise.  In the product the integer 100 becomes the
  double 100.0 and the exact product is rounded.
\<close>

datatype py_error = ZeroDivisionError

definition truediv :: "nat \<Rightarrow> nat \<Rightarrow> py_error + rat" where
  "truediv a b =
     (if b = 0 then Inl ZeroDivisionError else Inr (round_double (of_nat a / of_nat b)))"

definition float_mul :: "rat \<Rightarrow> rat \<Rightarrow> rat" where
  "float_mul a b = round_double (a * b)"

definition success_rate :: "'d habit_row list \<Rightarrow> py_error + rat" where
  "success_rate fd =
     (let total_logs = length fd;
          completed_logs = length (filter (\<lambda>r. status r = ''completed'') fd)
      in if total_logs \<noteq> 0
         then (case truediv completed_logs total_logs of
                 Inl e \<Rightarrow> Inl e
               | Inr q \<Rightarrow> Inr (float_mul q 100))
         else Inr 0)"

section \<open>Inputs for the examples\<close>

text \<open>
  A timestamp given by its day number and its hour of the day, a loaded row
  of user 1 given by key, habit name, date and status, and a parser that
  stands for pandas in the examples: it reads one text and coerces every
  other text to \<^verbatim>\<open>NaT\<close>.  Day 19723 is 2024-01-01.
\<close>

definition ts_at :: "int \<Rightarrow> int \<Rightarrow> date_val" where
  "ts_at day hour = Timestamp (day * ns_per_day + hour * 3600000000000)"

definition entry :: "int \<Rightarrow> string \<Rightarrow> date_val \<Rightarrow> string \<Rightarrow> date_val habit_row" where
  "entry k n d st =
     \<lparr>habit_pk = k, user_id = 1, name = n, date = d, status = st, notes_col = None\<rparr>"

definition to_datetime_example :: "string list \<Rightarrow> date_val list" where
  "to_datetime_example texts =
     map (\<lambda>s. if s = ''2024-01-01 23:00:00'' then ts_at 19723 23 else NaT) texts"

section \<open>Lemmas on the model\<close>

lemma fold_upd_lookup:
  "fold (\<lambda>k m. m(k \<mapsto> f k)) ks m0 h = (if h \<in> set ks then Some (f h) else m0 h)"
  by (induction ks arbitrary: m0) auto

lemma set_unique: "set (unique xs) = set xs"
  by (induction xs rule: unique.induct) auto

text \<open>The dictionary that \<^verbatim>\<open>calculate_streaks\<close> returns, read at one habit.\<close>

lemma calculate_streaks_lookup:
  "calculate_streaks habit_data h =
     (if h \<in> set (map name habit_data)
      then Some (max_streak (streak_loop (sort_values
             (map date (filter (\<lambda>r. name r = h) habit_data)))))
      else None)"
  unfolding calculate_streaks_def
  by (simp add: fold_upd_lookup set_unique)


lemma ns_per_day_pos: "0 < ns_per_day"
  by (simp add: ns_per_day_def)


lemma whole_day_le:
  fixes a b :: int
  assumes "(b - a) div ns_per_day = 1"
  shows "a \<le> b"
proof (rule ccontr)
  assume "\<not> a \<le> b"
  then have "b - a < 0" by simp
  then have "(b - a) div ns_per_day < 0"
    using ns_per_day_pos pos_imp_zdiv_neg_iff [of ns_per_day "b - a"] by blast
  with assms show False by linarith
qed

lemma chain_sorted:
  assumes "successively (\<lambda>a b. (b - a) div ns_per_day = 1) ts"
  shows "sorted ts"
proof -
  have "successively (\<le>) ts"
    using assms whole_day_le by (rule successively_mono)
  then show ?thesis
    by (simp add: successively_conv_sorted_wrt)
qed

lemma sort_values_Timestamps:
  "sort_values (map Timestamp ts) = map Timestamp (sort ts)"
proof -
  have "concat (map (\<lambda>d. case d of Timestamp t \<Rightarrow> [t] | NaT \<Rightarrow> []) (map Timestamp ts)) = ts"
    by (induction ts) simp_all
  moreover have "filter (\<lambda>d. d = NaT) (map Timestamp ts) = []"
    by (induction ts) simp_all
  ultimately show ?thesis by (simp add: sort_values_def)
qed

text \<open>
  What the loop does count: while each timestamp is one whole day after the
  one before (\<^verbatim>\<open>days == 1\<close>, that is from 24 to just under 48 hours), the
  streak grows by one per entry.
\<close>

lemma fold_streak_chain:
  assumes "successively (\<lambda>a b. (b - a) div ns_per_day = 1) (p # ts)"
    and "prev_date s = Some (Timestamp p)"
    and "current_streak s \<le> max_streak s"
  shows "max_streak (fold (\<lambda>d s. streak_step s d) (map Timestamp ts) s) =
           max (max_streak s) (current_streak s + int (length ts))"
  using assms
proof (induction ts arbitrary: p s)
  case Nil
  then show ?case by simp
next
  case (Cons t ts)
  let ?s' = "streak_step s (Timestamp t)"
  have d: "(t - p) div ns_per_day = 1"
    and rest: "successively (\<lambda>a b. (b - a) div ns_per_day = 1) (t # ts)"
    using Cons.prems(1) by simp_all
  have cur: "current_streak ?s' = current_streak s + 1"
    and mx: "max_streak ?s' = max (max_streak s) (current_streak s + 1)"
    and pv: "prev_date ?s' = Some (Timestamp t)"
    using d Cons.prems(2) by (simp_all add: streak_step_def Let_def)
  have "max_streak (fold (\<lambda>d s. streak_step s d) (map Timestamp ts) ?s') =
          max (max_streak ?s') (current_streak ?s' + int (length ts))"
    using Cons.IH [OF rest pv] cur mx by simp
  then show ?case using cur mx by simp
qed

lemma streak_loop_chain:
  assumes "successively (\<lambda>a b. (b - a) div ns_per_day = 1) ts"
  shows "max_streak (streak_loop (map Timestamp ts)) = int (length ts)"
proof (cases ts)
  case Nil
  then show ?thesis by (simp add: streak_loop_def)
next
  case (Cons p ts')
  let ?s = "streak_step \<lparr>max_streak = 0, current_streak = 0, prev_date = None\<rparr> (Timestamp p)"
  have "max_streak (fold (\<lambda>d s. streak_step s d) (map Timestamp ts') ?s) =
          max (max_streak ?s) (current_streak ?s + int (length ts'))"
    using assms Cons by (intro fold_streak_chain [of p]) (simp_all add: streak_step_def)
  then show ?thesis using Cons by (simp add: streak_loop_def streak_step_def)
qed

lemma calculate_streaks_whole_days:
  assumes "habit_data \<noteq> []"
    and "list_all (\<lambda>r. name r = h) habit_data"
    and "map date habit_data = map Timestamp ts"
    and "successively (\<lambda>a b. (b - a) div ns_per_day = 1) ts"
  shows "calculate_streaks habit_data h = Some (int (length habit_data))"
proof -
  have all: "filter (\<lambda>r. name r = h) habit_data = habit_data"
    using assms(2) by (simp add: list_all_iff)
  have mem: "h \<in> set (map name habit_data)"
    using assms(1,2) by (cases habit_data) simp_all
  have "length (map date habit_data) = length (map Timestamp ts)"
    using assms(3) by (rule arg_cong)
  then have len: "length ts = length habit_data"
    by simp
  have srt: "sort ts = ts"
    using chain_sorted [OF assms(4)] by (simp add: sort_key_id_if_sorted)
  have "max_streak (streak_loop (sort_values (map date (filter (\<lambda>r. name r = h) habit_data))))
        = int (length ts)"
    by (simp only: all assms(3) sort_values_Timestamps srt streak_loop_chain [OF assms(4)])
  then show ?thesis
    using mem len by (simp only: calculate_streaks_lookup if_True)
qed

lemma length_assign_date: "length (assign_date rs vs) = length rs"
  by (induction rs vs rule: assign_date.induct) simp_all

lemma other_columns_assign_date:
  "map other_columns (assign_date rs vs) = map other_columns rs"
  by (induction rs vs rule: assign_date.induct) (simp_all add: other_columns_def set_date_def)

lemma date_assign_date:
  "length vs = length rs \<Longrightarrow> map date (assign_date rs vs) = vs"
  by (induction rs vs rule: assign_date.induct) (simp_all add: set_date_def)

lemma assign_date_nth:
  "i < length rs \<Longrightarrow> i < length vs \<Longrightarrow> assign_date rs vs ! i = set_date (vs ! i) (rs ! i)"
proof (induction rs vs arbitrary: i rule: assign_date.induct)
  case (3 r rs v vs)
  then show ?case by (cases i) simp_all
qed simp_all


text \<open>Rounding to the nearest double.\<close>

lemma int_bitlen_bounds:
  fixes n :: int
  assumes "0 < n"
  shows "(2::rat) powi (bitlen n - 1) \<le> of_int n" and "of_int n < (2::rat) powi bitlen n"
proof -
  have b1: "1 \<le> bitlen n"
    using assms by (auto simp: bitlen_alt_def)
  have lo: "2 ^ nat (bitlen n - 1) \<le> n" and hi: "n < 2 ^ nat (bitlen n)"
    using bitlen_bounds [OF assms] by simp_all
  have "(of_int (2 ^ nat (bitlen n - 1)) :: rat) \<le> of_int n"
    using lo by (simp only: of_int_le_iff)
  then show "(2::rat) powi (bitlen n - 1) \<le> of_int n"
    using b1 by (simp add: power_int_nonneg_exp)
  have "(of_int n :: rat) < of_int (2 ^ nat (bitlen n))"
    using hi by (simp only: of_int_less_iff)
  then show "of_int n < (2::rat) powi bitlen n"
    using b1 by (simp add: power_int_nonneg_exp)
qed

lemma exponent_bounds:
  assumes "0 < x"
  shows "2 powi exponent x \<le> x" and "x < 2 powi (exponent x + 1)"
proof -
  obtain n d where q: "quotient_of x = (n, d)"
    by (cases "quotient_of x")
  have d: "0 < d" using q by (rule quotient_of_denom_pos)
  have x: "x = of_int n / of_int d" using q by (rule quotient_of_div)
  have n: "0 < n"
    using assms d x by (simp add: zero_less_divide_iff)
  let ?k = "bitlen n - bitlen d"
  have ex: "exponent x = (if 2 powi ?k \<le> x then ?k else ?k - 1)"
    using assms q by (simp add: exponent_def Let_def)
  have dpos: "(0::rat) < of_int d" using d by simp
  have lower: "2 powi (?k - 1) \<le> x"
  proof -
    have "(2::rat) powi (?k - 1) = 2 powi (bitlen n - 1) / 2 powi bitlen d"
      by (simp add: power_int_diff)
    also have "\<dots> \<le> of_int n / 2 powi bitlen d"
      using int_bitlen_bounds(1) [OF n] by (simp add: divide_right_mono)
    also have "\<dots> \<le> of_int n / of_int d"
      using int_bitlen_bounds(2) [OF d] n dpos
      by (intro divide_left_mono) (simp_all add: less_imp_le)
    finally show ?thesis using x by simp
  qed
  have upper: "x < 2 powi (?k + 1)"
  proof -
    have p: "(0::rat) < 2 powi (bitlen d - 1)" by simp
    have "x = of_int n / of_int d" by (rule x)
    also have "\<dots> \<le> of_int n / 2 powi (bitlen d - 1)"
      using int_bitlen_bounds(1) [OF d] n p dpos
      by (intro divide_left_mono mult_pos_pos) (simp_all add: less_imp_le)
    also have "\<dots> < 2 powi bitlen n / 2 powi (bitlen d - 1)"
      using int_bitlen_bounds(2) [OF n] p by (simp add: divide_strict_right_mono)
    also have "\<dots> = 2 powi (?k + 1)"
      by (simp add: power_int_diff [symmetric] algebra_simps)
    finally show ?thesis .
  qed
  show "2 powi exponent x \<le> x"
    using lower by (simp add: ex)
  show "x < 2 powi (exponent x + 1)"
  proof (cases "(2::rat) powi ?k \<le> x")
    case True
    then show ?thesis using upper by (simp add: ex)
  next
    case False
    then show ?thesis by (simp add: ex)
  qed
qed

lemma round_half_even_cases:
  "round_half_even y = \<lfloor>y\<rfloor> \<or> round_half_even y = \<lfloor>y\<rfloor> + 1"
  by (simp add: round_half_even_def Let_def)

lemma round_half_even_error: "\<bar>of_int (round_half_even y) - y\<bar> \<le> 1 / 2"
proof -
  have "of_int \<lfloor>y\<rfloor> \<le> y" "y < of_int \<lfloor>y\<rfloor> + 1"
    by linarith+
  then show ?thesis
    by (auto simp add: round_half_even_def Let_def abs_le_iff)
qed

lemma round_half_even_le:
  assumes "y \<le> of_int m"
  shows "round_half_even y \<le> m"
proof -
  have f: "\<lfloor>y\<rfloor> \<le> m" using assms by (simp add: floor_le_iff)
  show ?thesis
  proof (cases "\<lfloor>y\<rfloor> = m")
    case True
    then have "y = of_int \<lfloor>y\<rfloor>"
      using assms by (metis of_int_floor_le order_antisym)
    then have "y - of_int \<lfloor>y\<rfloor> = 0" by simp
    then show ?thesis using True by (simp add: round_half_even_def Let_def)
  next
    case False
    then have "\<lfloor>y\<rfloor> + 1 \<le> m" using f by simp
    then show ?thesis using round_half_even_cases [of y] f by auto
  qed
qed

lemma round_half_even_ge:
  assumes "of_int m \<le> y"
  shows "m \<le> round_half_even y"
proof -
  have "m \<le> \<lfloor>y\<rfloor>" using assms by (simp add: le_floor_iff)
  then show ?thesis using round_half_even_cases [of y] by auto
qed

text \<open>The scaled value lies in the binade of 53-bit integers.\<close>

lemma scaled_bounds:
  assumes "0 < x"
  shows "of_int (2 ^ 52) \<le> x / 2 powi (exponent x - 52)"
    and "x / 2 powi (exponent x - 52) < of_int (2 ^ 53)"
proof -
  let ?u = "(2::rat) powi (exponent x - 52)"
  have u: "0 < ?u" by simp
  have lo: "?u * 2 ^ 52 = 2 powi exponent x"
    by (simp add: power_int_diff)
  have hi: "?u * 2 ^ 53 = 2 powi (exponent x + 1)"
    by (simp add: power_int_diff power_int_add)
  have "?u * 2 ^ 52 \<le> x"
    using exponent_bounds(1) [OF assms] lo by simp
  then show "of_int (2 ^ 52) \<le> x / ?u"
    using u by (simp add: pos_le_divide_eq mult.commute)
  have "x < ?u * 2 ^ 53"
    using exponent_bounds(2) [OF assms] hi by simp
  then show "x / ?u < of_int (2 ^ 53)"
    using u by (simp add: pos_divide_less_eq mult.commute)
qed

lemma round_double_0: "round_double 0 = 0"
  by (simp add: round_double_def)

lemma round_double_pos:
  assumes "0 < x"
  shows "2 powi exponent x \<le> round_double x"
proof -
  let ?u = "(2::rat) powi (exponent x - 52)"
  have rd: "round_double x = of_int (round_half_even (x / ?u)) * ?u"
    using assms by (simp add: round_double_def)
  have "2 ^ 52 \<le> round_half_even (x / ?u)"
    using scaled_bounds(1) [OF assms] by (rule round_half_even_ge)
  then have "(of_int (2 ^ 52) :: rat) \<le> of_int (round_half_even (x / ?u))"
    by (simp only: of_int_le_iff)
  then have b: "of_int (2 ^ 52) * ?u \<le> of_int (round_half_even (x / ?u)) * ?u"
    by (intro mult_right_mono) simp_all
  have "2 powi exponent x = of_int (2 ^ 52) * ?u"
    by (simp add: power_int_diff)
  also note b
  finally show ?thesis
    by (simp only: rd)
qed

lemma round_double_error:
  assumes "0 < x"
  shows "\<bar>round_double x - x\<bar> \<le> x / 2 ^ 53"
proof -
  let ?u = "(2::rat) powi (exponent x - 52)"
  let ?y = "x / ?u"
  have u: "0 < ?u" by simp
  have xy: "x = ?y * ?u" by simp
  have "round_double x - x = (of_int (round_half_even ?y) - ?y) * ?u"
    using assms by (simp add: round_double_def algebra_simps)
  then have "\<bar>round_double x - x\<bar> = \<bar>of_int (round_half_even ?y) - ?y\<bar> * ?u"
    using u by (simp add: abs_mult)
  also have "\<dots> \<le> (1 / 2) * ?u"
    using round_half_even_error [of ?y] u by (intro mult_right_mono) simp_all
  also have "\<dots> = 2 powi exponent x / 2 ^ 53"
    by (simp add: power_int_diff)
  also have "\<dots> \<le> x / 2 ^ 53"
    using exponent_bounds(1) [OF assms] by (simp add: divide_right_mono)
  finally show ?thesis .
qed

text \<open>Rounding does not cross a representable number with a 53-bit significand.\<close>

lemma round_double_le:
  assumes "0 < x" and "x \<le> of_int M * 2 powi E" and "2 ^ 52 \<le> M" and "M < 2 ^ 53"
  shows "round_double x \<le> of_int M * 2 powi E"
proof -
  let ?e = "exponent x"
  let ?u = "(2::rat) powi (?e - 52)"
  have rd: "round_double x = of_int (round_half_even (x / ?u)) * ?u"
    using assms(1) by (simp add: round_double_def)
  have "(of_int M :: rat) < of_int (2 ^ 53)"
    using assms(4) by (simp only: of_int_less_iff)
  then have "of_int M * (2::rat) powi E < 2 ^ 53 * 2 powi E"
    by (intro mult_strict_right_mono) simp_all
  also have "\<dots> = 2 powi (E + 53)"
    by (simp add: power_int_add)
  finally have "2 powi ?e < (2::rat) powi (E + 53)"
    using exponent_bounds(1) [OF assms(1)] assms(2) by linarith
  then have "?e < E + 53"
    by (metis power_int_increasing linorder_not_le one_le_numeral)
  then consider "?e = E + 52" | "?e + 1 \<le> E + 52" by linarith
  then show ?thesis
  proof cases
    case 1
    then have u: "?u = 2 powi E" by simp
    have "x / 2 powi E \<le> of_int M"
      using assms(2) by (simp add: pos_divide_le_eq)
    then have "round_half_even (x / 2 powi E) \<le> M"
      by (rule round_half_even_le)
    then have "(of_int (round_half_even (x / 2 powi E)) :: rat) \<le> of_int M"
      by (simp only: of_int_le_iff)
    then have "of_int (round_half_even (x / 2 powi E)) * (2::rat) powi E \<le> of_int M * 2 powi E"
      by (intro mult_right_mono) simp_all
    then show ?thesis using rd u by simp
  next
    case 2
    have "round_half_even (x / ?u) \<le> 2 ^ 53"
      using scaled_bounds(2) [OF assms(1)] by (intro round_half_even_le) simp
    then have "(of_int (round_half_even (x / ?u)) :: rat) \<le> of_int (2 ^ 53)"
      by (simp only: of_int_le_iff)
    then have "of_int (round_half_even (x / ?u)) * ?u \<le> of_int (2 ^ 53) * ?u"
      by (intro mult_right_mono) simp_all
    also have "\<dots> = 2 powi (?e + 1)"
      by (simp add: power_int_diff power_int_add)
    also have "\<dots> \<le> 2 powi (E + 52)"
      using 2 by (intro power_int_increasing) simp_all
    also have "\<dots> = of_int (2 ^ 52) * 2 powi E"
      by (simp add: power_int_add)
    also have "\<dots> \<le> of_int M * 2 powi E"
    proof -
      have "(of_int (2 ^ 52) :: rat) \<le> of_int M"
        using assms(3) by (simp only: of_int_le_iff)
      then show ?thesis by (intro mult_right_mono) simp_all
    qed
    finally show ?thesis using rd by simp
  qed
qed

lemma round_double_le_1: "0 < x \<Longrightarrow> x \<le> 1 \<Longrightarrow> round_double x \<le> 1"
  using round_double_le [of x "2 ^ 52" "- 52"] by simp

lemma round_double_le_100: "0 < x \<Longrightarrow> x \<le> 100 \<Longrightarrow> round_double x \<le> 100"
  using round_double_le [of x "100 * 2 ^ 46" "- 46"] by simp

text \<open>The error of a rounded quotient times 100, rounded again.\<close>

lemma two_roundings:
  fixes x q v :: rat
  assumes "0 \<le> x" and "\<bar>q - x\<bar> \<le> x / 2 ^ 53" and "\<bar>v - q * 100\<bar> \<le> q * 100 / 2 ^ 53"
  shows "\<bar>v - 100 * x\<bar> \<le> 100 * x * (1 / 2 ^ 52 + 1 / 2 ^ 106)"
proof -
  have a: "q - x \<le> x / 9007199254740992" "- (q - x) \<le> x / 9007199254740992"
    using abs_le_D1 [OF assms(2)] abs_le_D2 [OF assms(2)] by simp_all
  have b: "v - q * 100 \<le> q * 100 / 9007199254740992"
    "- (v - q * 100) \<le> q * 100 / 9007199254740992"
    using abs_le_D1 [OF assms(3)] abs_le_D2 [OF assms(3)] by simp_all
  have "q \<le> x * (9007199254740993 / 9007199254740992)"
    using a(1) by linarith
  then have "q * (100 * (9007199254740993 / 9007199254740992))
      \<le> x * (9007199254740993 / 9007199254740992) * (100 * (9007199254740993 / 9007199254740992))"
    by (rule mult_right_mono) simp
  moreover have "v \<le> q * (100 * (9007199254740993 / 9007199254740992))"
    using b(1) by linarith
  ultimately have up: "v \<le> x * (9007199254740993 / 9007199254740992) *
      (100 * (9007199254740993 / 9007199254740992))"
    by linarith
  have "x * (9007199254740991 / 9007199254740992) \<le> q"
    using a(2) by linarith
  then have "x * (9007199254740991 / 9007199254740992) * (100 * (9007199254740991 / 9007199254740992))
      \<le> q * (100 * (9007199254740991 / 9007199254740992))"
    by (rule mult_right_mono) simp
  moreover have "q * (100 * (9007199254740991 / 9007199254740992)) \<le> v"
    using b(2) by linarith
  ultimately have low: "x * (9007199254740991 / 9007199254740992) *
      (100 * (9007199254740991 / 9007199254740992)) \<le> v"
    by linarith
  have "v - 100 * x \<le> 100 * x * (1 / 2 ^ 52 + 1 / 2 ^ 106)"
    using up by (simp add: algebra_simps)
  moreover have "- (v - 100 * x) \<le> 100 * x * (1 / 2 ^ 52 + 1 / 2 ^ 106)"
    using low assms(1) by (simp add: algebra_simps)
  ultimately show ?thesis
    by (rule abs_leI)
qed

lemmas example_defs =
  calculate_streaks_lookup entry_def ts_at_def ns_per_day_def sort_values_def
  streak_loop_def streak_step_def

section \<open>Streaks: claims C1, C2 and C10\<close>

text \<open>
  Claim C1: entries of one habit on consecutive calendar days, whatever
  their time of day, give a streak equal to their number.  The code
  differences the full timestamps, not the calendar days.  An entry on
  2024-01-01 at 23:00 followed by one on 2024-01-02 at 01:00 lies on
  consecutive calendar days, yet the two are two hours apart, \<^verbatim>\<open>days\<close> is
  0 and the streak is 1 where the claim says 2.  With both entries at 23:00
  the streak is 2.
\<close>

theorem streak_broken_by_time_of_day:
  "map dt_date [ts_at 19723 23, ts_at 19724 1] = [Some 19723, Some 19724] \<and>
   calculate_streaks
     [entry 1 ''Read'' (ts_at 19723 23) ''Started'',
      entry 2 ''Read'' (ts_at 19724 1) ''completed''] ''Read'' = Some 1 \<and>
   calculate_streaks
     [entry 1 ''Read'' (ts_at 19723 23) ''Started'',
      entry 2 ''Read'' (ts_at 19724 23) ''completed''] ''Read'' = Some 2"
  by (simp add: example_defs)

text \<open>
  Claim C2: a gap of more than one day resets the streak, so that three
  consecutive days, a day without entry and two more consecutive days give
  3, not 5.  With the first three entries at 23:00 and the last two at 01:00
  the entries before and after the empty day are 26 hours apart, \<^verbatim>\<open>days\<close>
  is 1, the streak is carried across the gap and the result is 5.
\<close>

theorem streak_carried_across_gap_day:
  "map dt_date
     [ts_at 19723 23, ts_at 19724 23, ts_at 19725 23, ts_at 19727 1, ts_at 19728 1] =
     [Some 19723, Some 19724, Some 19725, Some 19727, Some 19728] \<and>
   calculate_streaks
     [entry 1 ''Read'' (ts_at 19723 23) ''Started'',
      entry 2 ''Read'' (ts_at 19724 23) ''completed'',
      entry 3 ''Read'' (ts_at 19725 23) ''completed'',
      entry 4 ''Read'' (ts_at 19727 1) ''completed'',
      entry 5 ''Read'' (ts_at 19728 1) ''completed''] ''Read'' = Some 5"
  by (simp add: example_defs)




section \<open>Loading and writing entries: claims C3, C6 and C9\<close>

text \<open>
  Claim C3, as stated: an entry whose stored timestamp cannot be parsed is
  dropped from the collection that \<^verbatim>\<open>load_user_habits\<close> returns.  The code
  coerces the timestamp to \<^verbatim>\<open>NaT\<close> and keeps the entry: a single stored
  entry with the date text \<^verbatim>\<open>not a date\<close> is returned, with date \<^verbatim>\<open>NaT\<close>.
\<close>

theorem unparsable_entry_not_dropped:
  "load_user_habits to_datetime_example
     \<lparr>users = [\<lparr>user_pk = 1, username = ''alice'', password = ''pw''\<rparr>],
      habits = [\<lparr>habit_pk = 1, user_id = 1, name = ''Read'', date = ''not a date'',
                 status = ''Started'', notes_col = Some ''daily''\<rparr>]\<rparr> 1
   = [\<lparr>habit_pk = 1, user_id = 1, name = ''Read'', date = NaT,
        status = ''Started'', notes_col = Some ''daily''\<rparr>]"
  by (simp add: load_user_habits_def set_date_def to_datetime_example_def)

text \<open>
  Claim C3, amended: \<^verbatim>\<open>load_user_habits\<close> returns every stored entry of the
  user, in stored order, none dropped and none added, with all columns but
  the timestamp unchanged and the timestamps replaced by what the
  conversion gives for them (one value for each entry); an entry whose
  timestamp the conversion cannot parse is kept, with the missing timestamp
  \<^verbatim>\<open>NaT\<close>; and the result is the empty collection, not an error, when the
  user has no entries.
\<close>

theorem load_user_habits_keeps_every_entry:
  "length (load_user_habits to_datetime d uid) =
     length (filter (\<lambda>r. user_id r = uid) (habits d)) \<and>
   map other_columns (load_user_habits to_datetime d uid) =
     map other_columns (filter (\<lambda>r. user_id r = uid) (habits d)) \<and>
   (length (to_datetime (map date (filter (\<lambda>r. user_id r = uid) (habits d)))) =
      length (filter (\<lambda>r. user_id r = uid) (habits d)) \<longrightarrow>
    map date (load_user_habits to_datetime d uid) =
      to_datetime (map date (filter (\<lambda>r. user_id r = uid) (habits d))) \<and>
    (i < length (filter (\<lambda>r. user_id r = uid) (habits d)) \<and>
     to_datetime (map date (filter (\<lambda>r. user_id r = uid) (habits d))) ! i = NaT \<longrightarrow>
       load_user_habits to_datetime d uid ! i =
         set_date NaT (filter (\<lambda>r. user_id r = uid) (habits d) ! i))) \<and>
   (filter (\<lambda>r. user_id r = uid) (habits d) = [] \<longrightarrow>
      load_user_habits to_datetime d uid = [])"
proof -
  let ?rows = "filter (\<lambda>r. user_id r = uid) (habits d)"
  let ?vs = "to_datetime (map date ?rows)"
  have load: "load_user_habits to_datetime d uid = assign_date ?rows ?vs"
    by (simp add: load_user_habits_def Let_def)
  have "length (assign_date ?rows ?vs) = length ?rows"
    by (rule length_assign_date)
  moreover have "map other_columns (assign_date ?rows ?vs) = map other_columns ?rows"
    by (rule other_columns_assign_date)
  moreover have "map date (assign_date ?rows ?vs) = ?vs" if "length ?vs = length ?rows"
    using that by (rule date_assign_date)
  moreover have "assign_date ?rows ?vs ! i = set_date NaT (?rows ! i)"
    if "length ?vs = length ?rows" and "i < length ?rows" and "?vs ! i = NaT"
    using that assign_date_nth [of i ?rows ?vs] by simp
  moreover have "assign_date ?rows ?vs = []" if "?rows = []"
    using that by simp
  ultimately show ?thesis
    unfolding load by blast
qed

theorem load_user_habits_keeps_every_entry_witness:
  "load_user_habits to_datetime_example
     \<lparr>users = [\<lparr>user_pk = 1, username = ''alice'', password = ''pw''\<rparr>],
      habits =
        [\<lparr>habit_pk = 1, user_id = 1, name = ''Read'', date = ''2024-01-01 23:00:00'',
          status = ''Started'', notes_col = Some ''daily''\<rparr>,
         \<lparr>habit_pk = 2, user_id = 2, name = ''Run'', date = ''2024-01-01 23:00:00'',
          status = ''Started'', notes_col = Some ''weekly''\<rparr>,
         \<lparr>habit_pk = 3, user_id = 1, name = ''Read'', date = ''not a date'',
          status = ''completed'', notes_col = None\<rparr>]\<rparr> 1 ! 1 =
     \<lparr>habit_pk = 3, user_id = 1, name = ''Read'', date = NaT,
       status = ''completed'', notes_col = None\<rparr> \<and>
   map date (load_user_habits to_datetime_example
     \<lparr>users = [\<lparr>user_pk = 1, username = ''alice'', password = ''pw''\<rparr>],
      habits =
        [\<lparr>habit_pk = 1, user_id = 1, name = ''Read'', date = ''2024-01-01 23:00:00'',
          status = ''Started'', notes_col = Some ''daily''\<rparr>,
         \<lparr>habit_pk = 2, user_id = 2, name = ''Run'', date = ''2024-01-01 23:00:00'',
          status = ''Started'', notes_col = Some ''weekly''\<rparr>,
         \<lparr>habit_pk = 3, user_id = 1, name = ''Read'', date = ''not a date'',
          status = ''completed'', notes_col = None\<rparr>]\<rparr> 1) = [ts_at 19723 23, NaT] \<and>
   load_user_habits to_datetime_example
     \<lparr>users = [\<lparr>user_pk = 1, username = ''alice'', password = ''pw''\<rparr>],
      habits =
        [\<lparr>habit_pk = 2, user_id = 2, name = ''Run'', date = ''2024-01-01 23:00:00'',
          status = ''Started'', notes_col = Some ''weekly''\<rparr>]\<rparr> 1 = []"
  using load_user_habits_keeps_every_entry
    [of to_datetime_example
      "\<lparr>users = [\<lparr>user_pk = 1, username = ''alice'', password = ''pw''\<rparr>],
      habits =
        [\<lparr>habit_pk = 1, user_id = 1, name = ''Read'', date = ''2024-01-01 23:00:00'',
          status = ''Started'', notes_col = Some ''daily''\<rparr>,
         \<lparr>habit_pk = 2, user_id = 2, name = ''Run'', date = ''2024-01-01 23:00:00'',
          status = ''Started'', notes_col = Some ''weekly''\<rparr>,
         \<lparr>habit_pk = 3, user_id = 1, name = ''Read'', date = ''not a date'',
          status = ''completed'', notes_col = None\<rparr>]\<rparr>" 1 1]
    load_user_habits_keeps_every_entry
    [of to_datetime_example
      "\<lparr>users = [\<lparr>user_pk = 1, username = ''alice'', password = ''pw''\<rparr>],
      habits =
        [\<lparr>habit_pk = 2, user_id = 2, name = ''Run'', date = ''2024-01-01 23:00:00'',
          status = ''Started'', notes_col = Some ''weekly''\<rparr>]\<rparr>" 1 0]
  by (simp add: to_datetime_example_def set_date_def)

text \<open>
  Claim C6: for a user with no entries so far, \<^verbatim>\<open>add_habit\<close> followed by
  \<^verbatim>\<open>load_user_habits\<close> gives exactly one entry, with the given name, the
  status \<^verbatim>\<open>Started\<close> and the given notes.
\<close>

theorem add_habit_then_load_single_entry:
  assumes "load_user_habits to_datetime d uid = []"
  shows "\<exists>v. load_user_habits to_datetime (add_habit now d uid habit_name nts) uid =
     [\<lparr>habit_pk = next_rowid (map habit_pk (habits d)), user_id = uid, name = habit_name,
       date = v, status = ''Started'', notes_col = Some nts\<rparr>]"
proof -
  have "length (filter (\<lambda>r. user_id r = uid) (habits d)) = 0"
    using assms length_assign_date
      [of "filter (\<lambda>r. user_id r = uid) (habits d)"
          "to_datetime (map date (filter (\<lambda>r. user_id r = uid) (habits d)))"]
    by (simp add: load_user_habits_def Let_def)
  then have none: "filter (\<lambda>r. user_id r = uid) (habits d) = []"
    by simp
  show ?thesis
    by (cases "to_datetime [now]")
      (simp_all add: load_user_habits_def Let_def add_habit_def none set_date_def)
qed

theorem add_habit_then_load_single_entry_witness:
  "load_user_habits to_datetime_example
       \<lparr>users = [\<lparr>user_pk = 1, username = ''alice'', password = ''pw''\<rparr>],
        habits = []\<rparr>
       1 = [] \<and>
   load_user_habits to_datetime_example
     (add_habit ''2024-01-01 23:00:00''
       \<lparr>users = [\<lparr>user_pk = 1, username = ''alice'', password = ''pw''\<rparr>],
        habits = []\<rparr>
       1 ''Read'' ''daily'') 1 =
     [\<lparr>habit_pk = 1, user_id = 1, name = ''Read'', date = ts_at 19723 23,
       status = ''Started'', notes_col = Some ''daily''\<rparr>]"
  using add_habit_then_load_single_entry
    [of to_datetime_example 
      "\<lparr>users = [\<lparr>user_pk = 1, username = ''alice'', password = ''pw''\<rparr>],
        habits = []\<rparr>"
      1 "''2024-01-01 23:00:00''" "''Read''" "''daily''"]
  by (simp add: load_user_habits_def add_habit_def next_rowid_def to_datetime_example_def
      set_date_def)

text \<open>
  Claim C9: for every user id, habit name and status, \<^verbatim>\<open>log_habit_progress\<close>
  appends exactly one entry, with that name, that status and no notes,
  whether or not the name was added before; the users are untouched, and
  \<^verbatim>\<open>load_user_habits\<close> then returns one entry more: the entries of
  before, followed by the new one.
\<close>

theorem log_habit_progress_appends_entry:
  "habits (log_habit_progress now d uid habit_name st) =
     habits d @ [\<lparr>habit_pk = next_rowid (map habit_pk (habits d)), user_id = uid,
                  name = habit_name, date = now, status = st, notes_col = None\<rparr>] \<and>
   users (log_habit_progress now d uid habit_name st) = users d \<and>
   length (load_user_habits to_datetime (log_habit_progress now d uid habit_name st) uid) =
     length (load_user_habits to_datetime d uid) + 1 \<and>
   map other_columns
     (load_user_habits to_datetime (log_habit_progress now d uid habit_name st) uid) =
     map other_columns (load_user_habits to_datetime d uid) @
       [(next_rowid (map habit_pk (habits d)), uid, habit_name, st, None)]"
  by (simp add: log_habit_progress_def load_user_habits_def Let_def length_assign_date
      other_columns_assign_date other_columns_def)

theorem log_habit_progress_appends_entry_witness:
  "load_user_habits to_datetime_example
     (log_habit_progress ''2024-01-01 23:00:00''
       \<lparr>users = [\<lparr>user_pk = 1, username = ''alice'', password = ''pw''\<rparr>],
        habits = []\<rparr>
       1 ''Never added'' ''completed'') 1 =
     [\<lparr>habit_pk = 1, user_id = 1, name = ''Never added'', date = ts_at 19723 23,
       status = ''completed'', notes_col = None\<rparr>]"
  using log_habit_progress_appends_entry
    [of "''2024-01-01 23:00:00''" 
      "\<lparr>users = [\<lparr>user_pk = 1, username = ''alice'', password = ''pw''\<rparr>],
        habits = []\<rparr>"
      1 "''Never added''" "''completed''" to_datetime_example]
  by (simp add: log_habit_progress_def load_user_habits_def next_rowid_def
      to_datetime_example_def set_date_def)

section \<open>Success rate and date filter: claims C4 and C5\<close>

text \<open>
  Claim C4, as stated: the success rate equals 100 times the number of
  completed entries, divided by the number of entries.  The code computes
  in doubles and rounds twice.  For two completed entries and one skipped,
  the result is the double 66.66666666666666, which is neither the number
  200/3 nor the double nearest to it, 66.66666666666667, that Python gives
  for \<^verbatim>\<open>100 * 2 / 3\<close>.
\<close>

theorem success_rate_is_rounded:
  "success_rate [entry 1 ''Read'' (ts_at 19723 9) ''completed'',
                 entry 2 ''Read'' (ts_at 19724 9) ''completed'',
                 entry 3 ''Read'' (ts_at 19725 9) ''skipped'']
     = Inr (2345624805922133 / 35184372088832) \<and>
   (2345624805922133 / 35184372088832 :: rat) \<noteq> 100 * 2 / 3 \<and>
   round_double (100 * 2 / 3) = 4691249611844267 / 70368744177664 \<and>
   (2345624805922133 / 35184372088832 :: rat) \<noteq> 4691249611844267 / 70368744177664"
proof -
  have "success_rate [entry 1 ''Read'' (ts_at 19723 9) ''completed'',
                 entry 2 ''Read'' (ts_at 19724 9) ''completed'',
                 entry 3 ''Read'' (ts_at 19725 9) ''skipped'']
     = Inr (2345624805922133 / 35184372088832)"
    by code_simp
  moreover have "round_double (100 * 2 / 3) = 4691249611844267 / 70368744177664"
    by code_simp
  ultimately show ?thesis by simp
qed

text \<open>
  Claim C4, amended: the success rate is \<^verbatim>\<open>(completed / total) * 100\<close>
  in double arithmetic.  For the empty collection it is 0, and no division
  by zero takes place for any collection (the result is never the error).
  For a non-empty collection it lies between 0 and 100 and agrees with 100
  times completed divided by total up to the rounding of the two
  operations: the relative error is at most \<open>1 / 2 ^ 52 + 1 / 2 ^ 106\<close>.
\<close>

theorem success_rate_bounds_and_rounding:
  "(length fd = 0 \<longrightarrow> success_rate fd = Inr 0) \<and>
   (length fd \<noteq> 0 \<longrightarrow>
      (\<exists>v. success_rate fd = Inr v \<and> 0 \<le> v \<and> v \<le> 100 \<and>
           \<bar>v - 100 * of_nat (length (filter (\<lambda>r. status r = ''completed'') fd)) /
                    of_nat (length fd)\<bar>
           \<le> 100 * of_nat (length (filter (\<lambda>r. status r = ''completed'') fd)) /
                    of_nat (length fd) * (1 / 2 ^ 52 + 1 / 2 ^ 106)))"
proof (intro conjI impI)
  assume "length fd = 0"
  then show "success_rate fd = Inr 0"
    by (simp add: success_rate_def)
next
  assume t: "length fd \<noteq> 0"
  let ?c = "length (filter (\<lambda>r. status r = ''completed'') fd)"
  let ?t = "length fd"
  let ?x = "(of_nat ?c / of_nat ?t :: rat)"
  let ?q = "round_double ?x"
  let ?v = "round_double (?q * 100)"
  have sr: "success_rate fd = Inr ?v"
    using t by (simp add: success_rate_def truediv_def float_mul_def Let_def)
  have tpos: "(0::rat) < of_nat ?t" using t by simp
  have "(of_nat ?c :: rat) \<le> of_nat ?t"
    by (simp only: of_nat_le_iff length_filter_le)
  then have x1: "?x \<le> 1"
    using tpos by (simp add: pos_divide_le_eq)
  have x0: "0 \<le> ?x" by simp
  have "0 \<le> ?v \<and> ?v \<le> 100 \<and> \<bar>?v - 100 * ?x\<bar> \<le> 100 * ?x * (1 / 2 ^ 52 + 1 / 2 ^ 106)"
  proof (cases "?x = 0")
    case True
    show ?thesis
      by (simp only: True round_double_0 mult_zero_left) simp
  next
    case False
    then have xp: "0 < ?x" using x0 by linarith
    have qp: "0 < ?q"
      using round_double_pos [OF xp] zero_less_power_int [of "2::rat" "exponent ?x"]
      by linarith
    have q1: "?q \<le> 1" using xp x1 by (rule round_double_le_1)
    have qe: "\<bar>?q - ?x\<bar> \<le> ?x / 2 ^ 53" using xp by (rule round_double_error)
    have pp: "0 < ?q * 100" using qp by simp
    have p100: "?q * 100 \<le> 100" using q1 by simp
    have vp: "0 < ?v"
      using round_double_pos [OF pp] zero_less_power_int [of "2::rat" "exponent (?q * 100)"]
      by linarith
    have v100: "?v \<le> 100" using pp p100 by (rule round_double_le_100)
    have ve: "\<bar>?v - ?q * 100\<bar> \<le> ?q * 100 / 2 ^ 53" using pp by (rule round_double_error)
    have "\<bar>?v - 100 * ?x\<bar> \<le> 100 * ?x * (1 / 2 ^ 52 + 1 / 2 ^ 106)"
      using x0 qe ve by (rule two_roundings)
    then show ?thesis using vp v100 by simp
  qed
  then show "\<exists>v. success_rate fd = Inr v \<and> 0 \<le> v \<and> v \<le> 100 \<and>
           \<bar>v - 100 * of_nat ?c / of_nat ?t\<bar>
           \<le> 100 * of_nat ?c / of_nat ?t * (1 / 2 ^ 52 + 1 / 2 ^ 106)"
    using sr by simp
qed

theorem success_rate_bounds_and_rounding_witness:
  "success_rate ([] :: date_val habit_row list) = Inr 0 \<and>
   success_rate [entry 1 ''Read'' (ts_at 19723 9) ''completed'',
                 entry 2 ''Read'' (ts_at 19724 9) ''completed'',
                 entry 3 ''Read'' (ts_at 19725 9) ''skipped'']
     = Inr (float_mul (round_double (2 / 3)) 100) \<and>
   float_mul (round_double (2 / 3)) 100 = 2345624805922133 / 35184372088832 \<and>
   (0::rat) \<le> 2345624805922133 / 35184372088832 \<and>
   (2345624805922133 / 35184372088832 :: rat) \<le> 100"
proof -
  have a: "success_rate [entry 1 ''Read'' (ts_at 19723 9) ''completed'',
                 entry 2 ''Read'' (ts_at 19724 9) ''completed'',
                 entry 3 ''Read'' (ts_at 19725 9) ''skipped'']
     = Inr (float_mul (round_double (2 / 3)) 100)"
    by (simp add: success_rate_def truediv_def entry_def)
  have b: "float_mul (round_double (2 / 3)) 100 = 2345624805922133 / 35184372088832"
    by code_simp
  from success_rate_bounds_and_rounding [of "[] :: date_val habit_row list"]
    success_rate_bounds_and_rounding
      [of "[entry 1 ''Read'' (ts_at 19723 9) ''completed'',
            entry 2 ''Read'' (ts_at 19724 9) ''completed'',
            entry 3 ''Read'' (ts_at 19725 9) ''skipped'']"]
    a b
  show ?thesis by simp
qed

text \<open>
  Claim C5: the filter keeps exactly the entries whose name is the given
  name and whose timestamp has a date component from the start date to the
  end date, both included, in their order; entries on the two boundary
  dates are kept, and entries outside the range, with another name or
  without a date are not.
\<close>

theorem filtered_data_exact:
  "filtered_data habits_data selected_habit start_date end_date =
     filter (\<lambda>r. name r = selected_habit \<and>
                 (\<exists>day. dt_date (date r) = Some day \<and> start_date \<le> day \<and> day \<le> end_date))
       habits_data"
  unfolding filtered_data_def
  by (rule filter_cong) (auto split: option.splits)

theorem filtered_data_exact_witness:
  "filtered_data
     [entry 1 ''Read'' (ts_at 19722 23) ''Started'',
      entry 2 ''Read'' (ts_at 19723 0) ''completed'',
      entry 3 ''Run'' (ts_at 19724 12) ''completed'',
      entry 4 ''Read'' NaT ''completed'',
      entry 5 ''Read'' (ts_at 19725 23) ''skipped'',
      entry 6 ''Read'' (ts_at 19726 0) ''completed''] ''Read'' 19723 19725
   = [entry 2 ''Read'' (ts_at 19723 0) ''completed'',
      entry 5 ''Read'' (ts_at 19725 23) ''skipped'']"
  using filtered_data_exact
    [of "[entry 1 ''Read'' (ts_at 19722 23) ''Started'',
          entry 2 ''Read'' (ts_at 19723 0) ''completed'',
          entry 3 ''Run'' (ts_at 19724 12) ''completed'',
          entry 4 ''Read'' NaT ''completed'',
          entry 5 ''Read'' (ts_at 19725 23) ''skipped'',
          entry 6 ''Read'' (ts_at 19726 0) ''completed'']" "''Read''" 19723 19725]
  by (simp add: entry_def ts_at_def ns_per_day_def)

section \<open>Registration and login: claims C7 and C8\<close>

text \<open>
  Claim C7: \<^verbatim>\<open>register_user\<close> fails on a username that exists already
  (the insert raises the integrity error) and leaves the database as it
  was; so after a first registration of a new name has succeeded, a second
  one with the same name and another password fails, changes nothing, and
  the only stored password of that name is the first.
\<close>

theorem register_user_rejects_duplicate:
  "(uname \<in> set (map username (users d)) \<longrightarrow>
      insert_user d uname pw2 = Inl IntegrityError \<and>
      register_user d uname pw2 = (False, d)) \<and>
   (uname \<notin> set (map username (users d)) \<longrightarrow>
      (\<exists>d1. register_user d uname pw = (True, d1) \<and>
            register_user d1 uname pw2 = (False, d1) \<and>
            map password (filter (\<lambda>r. username r = uname) (users d1)) = [pw]))"
proof -
  have "filter (\<lambda>r. username r = uname) (users d) = []"
    if "uname \<notin> set (map username (users d))"
    using that by (auto simp: filter_empty_conv)
  then show ?thesis
    by (simp add: register_user_def insert_user_def)
qed

theorem register_user_rejects_duplicate_witness:
  "register_user \<lparr>users = [], habits = []\<rparr> ''alice'' ''pw'' = (True,
       \<lparr>users = [\<lparr>user_pk = 1, username = ''alice'', password = ''pw''\<rparr>],
        habits = []\<rparr>) \<and>
   register_user
       \<lparr>users = [\<lparr>user_pk = 1, username = ''alice'', password = ''pw''\<rparr>],
        habits = []\<rparr>
       ''alice'' ''pw2'' = (False,
       \<lparr>users = [\<lparr>user_pk = 1, username = ''alice'', password = ''pw''\<rparr>],
        habits = []\<rparr>) \<and>
   login_user
       \<lparr>users = [\<lparr>user_pk = 1, username = ''alice'', password = ''pw''\<rparr>],
        habits = []\<rparr>
       ''alice'' ''pw'' =
     Some \<lparr>user_pk = 1, username = ''alice'', password = ''pw''\<rparr>"
  using register_user_rejects_duplicate
      [of "''alice''" "\<lparr>users = [], habits = []\<rparr>" "''pw2''" "''pw''"]
    register_user_rejects_duplicate [of "''alice''" "\<lparr>users = [\<lparr>user_pk = 1, username = ''alice'', password = ''pw''\<rparr>],
        habits = []\<rparr>" "''pw2''" "''pw''"]
  by (simp add: register_user_def insert_user_def next_rowid_def login_user_def)

text \<open>
  Claim C8: \<^verbatim>\<open>login_user\<close> returns a user row exactly when a stored row has
  both the given username and the given password, and the row returned is
  such a row; with a wrong password for an existing username it returns
  nothing.  The comparison is plain equality of both fields.
\<close>

theorem login_user_exact_match:
  "(login_user d uname pw = Some r \<longrightarrow>
      r \<in> set (users d) \<and> username r = uname \<and> password r = pw) \<and>
   (login_user d uname pw = None \<longleftrightarrow>
      (uname, pw) \<notin> set (map (\<lambda>r. (username r, password r)) (users d)))"
  by (auto simp add: login_user_def find_Some_iff find_None_iff image_iff)

theorem login_user_exact_match_witness:
  "login_user
       \<lparr>users = [\<lparr>user_pk = 1, username = ''alice'', password = ''pw''\<rparr>],
        habits = []\<rparr>
       ''alice'' ''wrong'' = None \<and>
   login_user
       \<lparr>users = [\<lparr>user_pk = 1, username = ''alice'', password = ''pw''\<rparr>],
        habits = []\<rparr>
       ''alice'' ''p'' = None \<and>
   login_user
       \<lparr>users = [\<lparr>user_pk = 1, username = ''alice'', password = ''pw''\<rparr>],
        habits = []\<rparr>
       ''alice'' ''pw'' =
     Some \<lparr>user_pk = 1, username = ''alice'', password = ''pw''\<rparr>"
  using login_user_exact_match [of
      "\<lparr>users = [\<lparr>user_pk = 1, username = ''alice'', password = ''pw''\<rparr>],
        habits = []\<rparr>"
      "''alice''" "''wrong''"
      "\<lparr>user_pk = 1, username = ''alice'', password = ''pw''\<rparr>"]
    login_user_exact_match [of
      "\<lparr>users = [\<lparr>user_pk = 1, username = ''alice'', password = ''pw''\<rparr>],
        habits = []\<rparr>"
      "''alice''" "''p''"
      "\<lparr>user_pk = 1, username = ''alice'', password = ''pw''\<rparr>"]
    login_user_exact_match [of
      "\<lparr>users = [\<lparr>user_pk = 1, username = ''alice'', password = ''pw''\<rparr>],
        habits = []\<rparr>"
      "''alice''" "''pw''"
      "\<lparr>user_pk = 1, username = ''alice'', password = ''pw''\<rparr>"]
  by (simp add: login_user_def)

end
